theory Spec2Isabelle
  imports Main
begin

section \<open>Data model: the Mongoose schemas\<close>

text \<open>
  The backend keeps three collections: users, notes (schema \<open>noteSchema\<close>) and note
  versions (schema \<open>noteVersionSchema\<close>). An ObjectId is modelled as a natural number
  and a \<open>Date\<close> as a number of milliseconds. The string enumerations of the schemas
  (\<open>enum: [...]\<close>) are datatypes.
\<close>

type_synonym objectId = nat
type_synonym date = nat

text \<open>
  A JavaScript string is a sequence of UTF-16 code units. The title and the content of a
  note, which the schema trims and measures, are modelled so; a code unit is a natural
  number. The other strings (addresses, tokens, tags, messages) are only compared.
\<close>

type_synonym jstring = "nat list"

datatype permission = View | Edit
datatype shareStatus = Pending | Accepted
datatype reminderStatus = RPending | RSent | RNone
datatype attachmentType = Image | Document

record attachment =
  url :: string
  publicId :: string
  atype :: attachmentType
  aname :: string
  asize :: "nat option"

record share =
  share_userId :: objectId
  permission :: permission
  sharedAt :: date
  status :: shareStatus

record noteDoc =
  note_id :: objectId
  title :: jstring
  content :: jstring
  userId :: objectId
  isPinned :: bool
  isArchived :: bool
  tags :: "string list"
  attachments :: "attachment list"
  reminderAt :: "date option"
  reminderStatus :: reminderStatus
  sharedWith :: "share list"
  shareToken :: "string option"
  shareTokenExpiry :: "date option"
  createdAt :: date
  updatedAt :: date

record noteVersion =
  version_id :: objectId
  v_noteId :: objectId
  v_title :: jstring
  v_content :: jstring
  v_tags :: "string list"
  versionNumber :: nat
  createdBy :: objectId
  v_createdAt :: date

record user =
  user_id :: objectId
  uname :: string
  email :: string

record store =
  db_notes :: "noteDoc list"
  db_versions :: "noteVersion list"
  db_users :: "user list"

text \<open>
  A handler either throws or answers. \<open>HttpError s m\<close> is \<open>res.status(s); throw new
  Error(m)\<close>. \<open>ValidationError\<close> is the error Mongoose's \<open>save\<close> throws when the
  document does not satisfy its schema, and \<open>TypeError\<close> a property read on \<open>null\<close>;
  the error middleware answers both with status 500.
\<close>

datatype error = HttpError nat string | ValidationError | TypeError

fun http_status :: "error \<Rightarrow> nat" where
  "http_status (HttpError s m) = s"
| "http_status ValidationError = 500"
| "http_status TypeError = 500"

section \<open>Schema setters and validators\<close>

text \<open>
  \<open>trim: true\<close> on a String path installs a setter that applies JavaScript's
  \<open>String.prototype.trim\<close> to every value assigned to the path. It strips the
  white space and the line terminators of ECMAScript from both ends: U+0009 to U+000D,
  U+0020, U+00A0, U+1680, U+2000 to U+200A, U+2028, U+2029, U+202F, U+205F, U+3000 and
  U+FEFF, each of them one code unit.
\<close>

definition js_space :: "nat \<Rightarrow> bool" where
  "js_space c =
     (c \<in> set [0x0009, 0x000A, 0x000B, 0x000C, 0x000D, 0x0020, 0x00A0, 0x1680,
                0x2000, 0x2001, 0x2002, 0x2003, 0x2004, 0x2005, 0x2006, 0x2007, 0x2008,
                0x2009, 0x200A, 0x2028, 0x2029, 0x202F, 0x205F, 0x3000, 0xFEFF])"

definition js_trim :: "jstring \<Rightarrow> jstring" where
  "js_trim s = rev (dropWhile js_space (rev (dropWhile js_space s)))"

text \<open>
  \<open>a || b\<close> where \<open>a\<close> is a string of the request body or \<open>undefined\<close> (the
  field is absent): the empty string and \<open>undefined\<close> are falsy.
\<close>

definition js_or :: "jstring option \<Rightarrow> jstring \<Rightarrow> jstring" where
  "js_or a b = (case a of None \<Rightarrow> b | Some s \<Rightarrow> if s = [] then b else s)"

definition js_default :: "'a option \<Rightarrow> 'a \<Rightarrow> 'a" where
  "js_default a b = (case a of None \<Rightarrow> b | Some v \<Rightarrow> v)"

text \<open>
  The validators of \<open>noteSchema\<close>. \<open>required\<close> on a String path rejects the empty
  string as well as a missing value. \<open>save\<close> validates the document before any
  \<open>pre('save')\<close> hook of the schema runs.
\<close>

definition valid_attachment :: "attachment \<Rightarrow> bool" where
  "valid_attachment a = (url a \<noteq> [] \<and> publicId a \<noteq> [] \<and> aname a \<noteq> [])"

definition valid_note :: "noteDoc \<Rightarrow> bool" where
  "valid_note n =
     (title n \<noteq> [] \<and> length (title n) \<le> 200 \<and> length (tags n) \<le> 10
      \<and> list_all valid_attachment (attachments n))"

text \<open>
  The validators of \<open>noteVersionSchema\<close>: \<open>title\<close> and \<open>content\<close> are
  \<open>required\<close> strings; the other required paths always hold a value here.
\<close>

definition valid_version :: "noteVersion \<Rightarrow> bool" where
  "valid_version v = (v_title v \<noteq> [] \<and> v_content v \<noteq> [])"

section \<open>The collections\<close>

definition Note_findById :: "store \<Rightarrow> objectId \<Rightarrow> noteDoc option" where
  "Note_findById st i = find (\<lambda>n. note_id n = i) (db_notes st)"


text \<open>
  \<open>note.save()\<close> for a note loaded from the store: validation first; then the
  document replaces the stored one with its \<open>_id\<close>, and \<open>timestamps: true\<close> sets
  \<open>updatedAt\<close> when the document was modified.
\<close>

definition stamp :: "date \<Rightarrow> noteDoc \<Rightarrow> noteDoc \<Rightarrow> noteDoc" where
  "stamp now old new = (if new = old then old else new\<lparr>updatedAt := now\<rparr>)"

definition replace_note :: "noteDoc \<Rightarrow> noteDoc list \<Rightarrow> noteDoc list" where
  "replace_note n ns = map (\<lambda>m. if note_id m = note_id n then n else m) ns"

definition note_save :: "date \<Rightarrow> store \<Rightarrow> noteDoc \<Rightarrow> noteDoc \<Rightarrow> error + (store \<times> noteDoc)" where
  "note_save now st old new =
     (if valid_note new
      then (let saved = stamp now old new
            in Inr (st\<lparr>db_notes := replace_note saved (db_notes st)\<rparr>, saved))
      else Inl ValidationError)"

section \<open>Note controller\<close>

text \<open>The JSON body of \<open>PUT /api/notes/:id\<close>; \<open>None\<close> is an absent field.\<close>

record updateBody =
  b_title :: "jstring option"
  b_content :: "jstring option"
  b_tags :: "string list option"
  b_isPinned :: "bool option"
  b_isArchived :: "bool option"
  b_reminderAt :: "date option option"
  b_reminderStatus :: "string option"

definition parse_reminderStatus :: "string \<Rightarrow> reminderStatus option" where
  "parse_reminderStatus s =
     (if s = ''pending'' then Some RPending
      else if s = ''sent'' then Some RSent
      else if s = ''none'' then Some RNone
      else None)"

definition getNoteById :: "store \<Rightarrow> objectId \<Rightarrow> objectId \<Rightarrow> error + noteDoc" where
  "getNoteById st caller i =
     (case Note_findById st i of
        None \<Rightarrow> Inl (HttpError 404 ''Note not found'')
      | Some n \<Rightarrow>
          if userId n \<noteq> caller
          then Inl (HttpError 403 ''Not authorized to access this note'')
          else Inr n)"

text \<open>
  \<open>updateNote\<close> of the controller with reminders. The assignments to \<open>title\<close> and
  \<open>content\<close> go through the \<open>trim\<close> setter. A \<open>reminderStatus\<close> outside the
  enumeration fails validation in \<open>save\<close>.
\<close>

definition updateNote ::
  "date \<Rightarrow> store \<Rightarrow> objectId \<Rightarrow> objectId \<Rightarrow> updateBody \<Rightarrow> error + (store \<times> noteDoc)" where
  "updateNote now st caller i body =
     (case Note_findById st i of
        None \<Rightarrow> Inl (HttpError 404 ''Note not found'')
      | Some n \<Rightarrow>
          if userId n \<noteq> caller
          then Inl (HttpError 403 ''Not authorized to update this note'')
          else
            (case (case b_reminderStatus body of
                     None \<Rightarrow> Some (reminderStatus n)
                   | Some s \<Rightarrow> parse_reminderStatus s) of
               None \<Rightarrow> Inl ValidationError
             | Some rs \<Rightarrow>
                 note_save now st n
                   (n\<lparr>title := js_trim (js_or (b_title body) (title n)),
                      content := js_trim (js_or (b_content body) (content n)),
                      tags := js_default (b_tags body) (tags n),
                      isPinned := js_default (b_isPinned body) (isPinned n),
                      isArchived := js_default (b_isArchived body) (isArchived n),
                      reminderAt := js_default (b_reminderAt body) (reminderAt n),
                      reminderStatus := rs\<rparr>)))"

text \<open>
  \<open>updateNote\<close> of \<open>controllers/noteController.js\<close>: the same handler without the
  reminder fields, which it does not read from the body.
\<close>

definition updateNote_basic ::
  "date \<Rightarrow> store \<Rightarrow> objectId \<Rightarrow> objectId \<Rightarrow> updateBody \<Rightarrow> error + (store \<times> noteDoc)" where
  "updateNote_basic now st caller i body =
     (case Note_findById st i of
        None \<Rightarrow> Inl (HttpError 404 ''Note not found'')
      | Some n \<Rightarrow>
          if userId n \<noteq> caller
          then Inl (HttpError 403 ''Not authorized to update this note'')
          else
            note_save now st n
              (n\<lparr>title := js_trim (js_or (b_title body) (title n)),
                 content := js_trim (js_or (b_content body) (content n)),
                 tags := js_default (b_tags body) (tags n),
                 isPinned := js_default (b_isPinned body) (isPinned n),
                 isArchived := js_default (b_isArchived body) (isArchived n)\<rparr>))"

text \<open>
  \<open>deleteNote\<close>: the loop asks the storage provider to destroy each attachment and
  swallows every failure, so it is the list of requests it makes; \<open>note.deleteOne()\<close>
  then removes the document with the note's \<open>_id\<close>. The note schema has no hook on
  deletion.
\<close>

definition destroy_requests :: "attachment list \<Rightarrow> (string \<times> string) list" where
  "destroy_requests as =
     map (\<lambda>a. (publicId a, if atype a = Image then ''image'' else ''raw'')) as"

definition deleteNote ::
  "store \<Rightarrow> objectId \<Rightarrow> objectId \<Rightarrow> error + (store \<times> (string \<times> string) list)" where
  "deleteNote st caller i =
     (case Note_findById st i of
        None \<Rightarrow> Inl (HttpError 404 ''Note not found'')
      | Some n \<Rightarrow>
          if userId n \<noteq> caller
          then Inl (HttpError 403 ''Not authorized to delete this note'')
          else Inr (st\<lparr>db_notes := filter (\<lambda>m. note_id m \<noteq> note_id n) (db_notes st)\<rparr>,
                    destroy_requests (attachments n)))"

section \<open>Note versions: the model and its \<open>pre('save')\<close> hook\<close>

definition versions_of :: "objectId \<Rightarrow> noteVersion list \<Rightarrow> noteVersion list" where
  "versions_of nid vs = filter (\<lambda>v. v_noteId v = nid) vs"

definition countDocuments :: "store \<Rightarrow> objectId \<Rightarrow> nat" where
  "countDocuments st nid = length (versions_of nid (db_versions st))"

text \<open>
  The first document in ascending order of \<open>createdAt\<close>; among documents created at
  the same instant, the one stored first.
\<close>

fun oldest :: "noteVersion list \<Rightarrow> noteVersion option" where
  "oldest [] = None"
| "oldest (v # vs) =
     (case oldest vs of
        None \<Rightarrow> Some v
      | Some w \<Rightarrow> if v_createdAt v \<le> v_createdAt w then Some v else Some w)"

text \<open>\<open>findOneAndDelete({ noteId }, { sort: { createdAt: 1 } })\<close> removes one document.\<close>

definition findOneAndDelete :: "objectId \<Rightarrow> noteVersion list \<Rightarrow> noteVersion list" where
  "findOneAndDelete nid vs =
     (case oldest (versions_of nid vs) of None \<Rightarrow> vs | Some e \<Rightarrow> remove1 e vs)"

definition pre_save :: "store \<Rightarrow> noteVersion \<Rightarrow> store" where
  "pre_save st v =
     (if countDocuments st (v_noteId v) \<ge> 20
      then st\<lparr>db_versions := findOneAndDelete (v_noteId v) (db_versions st)\<rparr>
      else st)"

text \<open>
  \<open>NoteVersion.create(doc)\<close>: validation, then the hook, then the insertion.
\<close>

definition NoteVersion_create :: "store \<Rightarrow> noteVersion \<Rightarrow> error + (store \<times> noteVersion)" where
  "NoteVersion_create st v =
     (if valid_version v
      then (let st1 = pre_save st v
            in Inr (st1\<lparr>db_versions := db_versions st1 @ [v]\<rparr>, v))
      else Inl ValidationError)"

section \<open>Version controller\<close>

text \<open>
  \<open>vid\<close> is the ObjectId the driver gives the new document and \<open>now\<close> the instant of
  the call.
\<close>

definition snapshot_of :: "date \<Rightarrow> objectId \<Rightarrow> store \<Rightarrow> objectId \<Rightarrow> noteDoc \<Rightarrow> noteVersion" where
  "snapshot_of now vid st caller n =
     \<lparr>version_id = vid, v_noteId = note_id n, v_title = title n, v_content = content n,
      v_tags = tags n, versionNumber = countDocuments st (note_id n) + 1,
      createdBy = caller, v_createdAt = now\<rparr>"

definition createVersion ::
  "date \<Rightarrow> objectId \<Rightarrow> store \<Rightarrow> objectId \<Rightarrow> objectId \<Rightarrow> error + (store \<times> noteVersion)" where
  "createVersion now vid st caller i =
     (case Note_findById st i of
        None \<Rightarrow> Inl (HttpError 404 ''Note not found'')
      | Some n \<Rightarrow>
          if userId n \<noteq> caller
          then Inl (HttpError 403 ''Not authorized'')
          else NoteVersion_create st (snapshot_of now vid st caller n))"

definition hasAccess :: "noteDoc \<Rightarrow> objectId \<Rightarrow> bool" where
  "hasAccess n caller =
     (userId n = caller \<or> list_ex (\<lambda>s. share_userId s = caller) (sharedWith n))"

record versionSummary =
  s_id :: objectId
  s_title :: jstring
  s_versionNumber :: nat
  s_createdAt :: date

definition select_summary :: "noteVersion \<Rightarrow> versionSummary" where
  "select_summary v =
     \<lparr>s_id = version_id v, s_title = v_title v, s_versionNumber = versionNumber v,
      s_createdAt = v_createdAt v\<rparr>"

definition getVersionHistory ::
  "store \<Rightarrow> objectId \<Rightarrow> objectId \<Rightarrow> error + versionSummary list" where
  "getVersionHistory st caller i =
     (case Note_findById st i of
        None \<Rightarrow> Inl (HttpError 404 ''Note not found'')
      | Some n \<Rightarrow>
          if hasAccess n caller
          then Inr (map select_summary
                      (take 20 (rev (sort_key v_createdAt
                                       (versions_of (note_id n) (db_versions st))))))
          else Inl (HttpError 403 ''Not authorized''))"

definition NoteVersion_findOne :: "store \<Rightarrow> objectId \<Rightarrow> objectId \<Rightarrow> noteVersion option" where
  "NoteVersion_findOne st vid nid =
     find (\<lambda>v. version_id v = vid \<and> v_noteId v = nid) (db_versions st)"

definition getVersion ::
  "store \<Rightarrow> objectId \<Rightarrow> objectId \<Rightarrow> objectId \<Rightarrow> error + noteVersion" where
  "getVersion st caller i vid =
     (case Note_findById st i of
        None \<Rightarrow> Inl (HttpError 404 ''Note not found'')
      | Some n \<Rightarrow>
          if hasAccess n caller
          then (case NoteVersion_findOne st vid (note_id n) of
                  None \<Rightarrow> Inl (HttpError 404 ''Version not found'')
                | Some v \<Rightarrow> Inr v)
          else Inl (HttpError 403 ''Not authorized''))"

text \<open>
  \<open>restoreVersion\<close> writes twice, so it returns the store in every case: when the
  snapshot is refused the store is the one it was given, and when the snapshot is stored
  but the note's \<open>save\<close> is refused the snapshot stays.
\<close>

definition restoreVersion ::
  "date \<Rightarrow> objectId \<Rightarrow> store \<Rightarrow> objectId \<Rightarrow> objectId \<Rightarrow> objectId
     \<Rightarrow> store \<times> (error + noteDoc)" where
  "restoreVersion now vid st caller i target =
     (case Note_findById st i of
        None \<Rightarrow> (st, Inl (HttpError 404 ''Note not found''))
      | Some n \<Rightarrow>
          if userId n \<noteq> caller
          then (st, Inl (HttpError 403 ''Only note owner can restore versions''))
          else
            (case NoteVersion_findOne st target (note_id n) of
               None \<Rightarrow> (st, Inl (HttpError 404 ''Version not found''))
             | Some ver \<Rightarrow>
                 (case NoteVersion_create st (snapshot_of now vid st caller n) of
                    Inl e \<Rightarrow> (st, Inl e)
                  | Inr (st1, snap) \<Rightarrow>
                      (case note_save now st1 n
                              (n\<lparr>title := js_trim (v_title ver),
                                 content := js_trim (v_content ver),
                                 tags := v_tags ver\<rparr>) of
                         Inl e \<Rightarrow> (st1, Inl e)
                       | Inr (st2, saved) \<Rightarrow> (st2, Inr saved)))))"

section \<open>Share controller\<close>

text \<open>The JSON body of \<open>POST /api/notes/:id/share\<close>.\<close>

record shareBody =
  sb_email :: "string option"
  sb_permission :: "string option"

definition parse_permission :: "string \<Rightarrow> permission option" where
  "parse_permission s =
     (if s = ''view'' then Some View else if s = ''edit'' then Some Edit else None)"

text \<open>
  \<open>alreadyShared.permission = permission\<close>, where \<open>alreadyShared\<close> is the first entry
  of \<open>sharedWith\<close> for the user: the entry is updated where it stands.
\<close>

fun set_permission :: "objectId \<Rightarrow> permission \<Rightarrow> share list \<Rightarrow> share list" where
  "set_permission u p [] = []"
| "set_permission u p (s # ss) =
     (if share_userId s = u then s\<lparr>permission := p\<rparr> # ss
      else s # set_permission u p ss)"

text \<open>
  \<open>shareNote\<close>. The user is looked up with the regular expression \<open>^email$\<close>,
  case-insensitive; \<open>matches pattern address\<close> is the answer of the regular
  expression engine, a parameter of the model. A new entry takes \<open>sharedAt\<close> from the
  schema's default \<open>Date.now\<close>.
\<close>

definition shareNote ::
  "(string \<Rightarrow> string \<Rightarrow> bool) \<Rightarrow> date \<Rightarrow> store \<Rightarrow> objectId \<Rightarrow> objectId \<Rightarrow> shareBody
     \<Rightarrow> error + (store \<times> string \<times> share list)" where
  "shareNote matches now st caller i body =
     (case sb_email body of
        None \<Rightarrow> Inl (HttpError 400 ''Please provide user email'')
      | Some e \<Rightarrow>
     if e = [] then Inl (HttpError 400 ''Please provide user email'')
     else
     (case parse_permission (js_default (sb_permission body) ''view'') of
        None \<Rightarrow> Inl (HttpError 400 (''Invalid permission. Use '' @ CHR 0x22 # ''view'' @ CHR 0x22 #
                            '' or '' @ CHR 0x22 # ''edit'' @ [CHR 0x22]))
      | Some p \<Rightarrow>
     (case Note_findById st i of
        None \<Rightarrow> Inl (HttpError 404 ''Note not found'')
      | Some n \<Rightarrow>
     if userId n \<noteq> caller
     then Inl (HttpError 403 ''Not authorized to share this note'')
     else
     (case find (\<lambda>u. matches e (email u)) (db_users st) of
        None \<Rightarrow> Inl (HttpError 404 (''User not found with email: '' @ e))
      | Some userToShare \<Rightarrow>
     if user_id userToShare = caller
     then Inl (HttpError 400 ''Cannot share note with yourself'')
     else
     (case find (\<lambda>s. share_userId s = user_id userToShare) (sharedWith n) of
        Some alreadyShared \<Rightarrow>
          if permission alreadyShared \<noteq> p
          then (case note_save now st n
                       (n\<lparr>sharedWith := set_permission (user_id userToShare) p (sharedWith n)\<rparr>) of
                  Inl err \<Rightarrow> Inl err
                | Inr (st', saved) \<Rightarrow> Inr (st', ''Permission updated'', sharedWith saved))
          else Inl (HttpError 400 ''Note already shared with this user'')
      | None \<Rightarrow>
          (case note_save now st n
                  (n\<lparr>sharedWith := sharedWith n @
                       [\<lparr>share_userId = user_id userToShare, permission = p,
                         sharedAt = now, status = Pending\<rparr>]\<rparr>) of
             Inl err \<Rightarrow> Inl err
           | Inr (st', saved) \<Rightarrow> Inr (st', ''Note shared successfully'', sharedWith saved)))))))"



section \<open>Reminder scheduler\<close>




section \<open>Terms of the statements\<close>






section \<open>Example stores\<close>

definition alice :: user where
  "alice = \<lparr>user_id = 1, uname = ''Alice'', email = ''alice@example.com''\<rparr>"

definition bob :: user where
  "bob = \<lparr>user_id = 2, uname = ''Bob'', email = ''bob@example.com''\<rparr>"

text \<open>Alice's note: the title is \<open>Plan\<close> and the content \<open>abc\<close>, in code units.\<close>

definition plan :: noteDoc where
  "plan = \<lparr>note_id = 10, title = [0x50, 0x6C, 0x61, 0x6E], content = [0x61, 0x62, 0x63],
            userId = 1,
            isPinned = False, isArchived = False, tags = [''work''], attachments = [],
            reminderAt = None, reminderStatus = RNone, sharedWith = [],
            shareToken = None, shareTokenExpiry = None, createdAt = 1, updatedAt = 1\<rparr>"

definition plan_version :: "nat \<Rightarrow> noteVersion" where
  "plan_version k =
     \<lparr>version_id = 100 + k, v_noteId = 10, v_title = [0x50, 0x6C, 0x61, 0x6E],
      v_content = [0x61, 0x62, 0x63],
      v_tags = [''work''], versionNumber = k, createdBy = 1, v_createdAt = k\<rparr>"

text \<open>Alice's note with one snapshot.\<close>

definition plan_store :: store where
  "plan_store =
     \<lparr>db_notes = [plan], db_versions = [plan_version 1], db_users = [alice, bob]\<rparr>"

text \<open>
  The same note with an image and a document attached, beside another note of Alice.
\<close>

definition photo :: attachment where
  "photo = \<lparr>url = ''https://cdn.example.com/photo.png'', publicId = ''notes-app/photo'',
             atype = Image, aname = ''photo.png'', asize = Some 2048\<rparr>"

definition manual :: attachment where
  "manual = \<lparr>url = ''https://cdn.example.com/manual.pdf'', publicId = ''notes-app/manual'',
              atype = Document, aname = ''manual.pdf'', asize = Some 4096\<rparr>"

definition attached :: noteDoc where
  "attached = plan\<lparr>attachments := [photo, manual]\<rparr>"

definition memo :: noteDoc where
  "memo = plan\<lparr>note_id := 11\<rparr>"

definition attached_store :: store where
  "attached_store =
     \<lparr>db_notes = [attached, memo], db_versions = [plan_version 1], db_users = [alice, bob]\<rparr>"

text \<open>The same note shared with Bob.\<close>

definition grant :: "permission \<Rightarrow> shareStatus \<Rightarrow> share" where
  "grant p s = \<lparr>share_userId = 2, permission = p, sharedAt = 3, status = s\<rparr>"

definition shared_store :: "permission \<Rightarrow> shareStatus \<Rightarrow> store" where
  "shared_store p s = plan_store\<lparr>db_notes := [plan\<lparr>sharedWith := [grant p s]\<rparr>]\<rparr>"

text \<open>The same note with twenty snapshots, numbered 1 to 20.\<close>

definition full_store :: store where
  "full_store =
     \<lparr>db_notes = [plan], db_versions = map plan_version [1..<21], db_users = [alice, bob]\<rparr>"

definition no_change :: updateBody where
  "no_change =
     \<lparr>b_title = None, b_content = None, b_tags = None, b_isPinned = None,
      b_isArchived = None, b_reminderAt = None, b_reminderStatus = None\<rparr>"

text \<open>Alice's note after a white-space update has emptied its content.\<close>

definition emptied_store :: store where
  "emptied_store = plan_store\<lparr>db_notes := [plan\<lparr>content := [], updatedAt := 100\<rparr>]\<rparr>"

text \<open>An invitation of Bob, and a matcher that accepts the address itself.\<close>

definition invite :: "string \<Rightarrow> shareBody" where
  "invite p = \<lparr>sb_email = Some ''bob@example.com'', sb_permission = Some p\<rparr>"

definition same_address :: "string \<Rightarrow> string \<Rightarrow> bool" where
  "same_address pattern address = (pattern = address)"






section \<open>Lemmas on the collections\<close>

lemma Note_findById_SomeD:
  "Note_findById st i = Some n \<Longrightarrow> note_id n = i \<and> n \<in> set (db_notes st)"
  unfolding Note_findById_def by (auto simp: find_Some_iff)

lemma stamp_fields:
  "note_id (stamp now old new) = note_id new"
  "title (stamp now old new) = title new"
  "content (stamp now old new) = content new"
  "tags (stamp now old new) = tags new"
  "userId (stamp now old new) = userId new"
  "isPinned (stamp now old new) = isPinned new"
  "isArchived (stamp now old new) = isArchived new"
  "attachments (stamp now old new) = attachments new"
  "reminderAt (stamp now old new) = reminderAt new"
  "reminderStatus (stamp now old new) = reminderStatus new"
  "sharedWith (stamp now old new) = sharedWith new"
  "shareToken (stamp now old new) = shareToken new"
  "shareTokenExpiry (stamp now old new) = shareTokenExpiry new"
  "createdAt (stamp now old new) = createdAt new"
  by (auto simp: stamp_def)

lemma find_replace_note:
  "find (\<lambda>m. note_id m = i) ns = Some n \<Longrightarrow> note_id n' = i
     \<Longrightarrow> find (\<lambda>m. note_id m = i) (replace_note n' ns) = Some n'"
  by (induction ns) (auto simp: replace_note_def split: if_splits)

lemma note_save_ok:
  assumes "valid_note new"
  shows "note_save now st old new =
           Inr (st\<lparr>db_notes := replace_note (stamp now old new) (db_notes st)\<rparr>,
                stamp now old new)"
  using assms by (simp add: note_save_def Let_def)

lemma note_save_stored:
  assumes "Note_findById st i = Some old" and "note_id new = i"
    and "note_save now st old new = Inr (st', saved)"
  shows "Note_findById st' i = Some saved \<and> saved = stamp now old new
         \<and> db_versions st' = db_versions st \<and> db_users st' = db_users st"
  using assms
  by (auto simp: note_save_def Note_findById_def Let_def stamp_fields find_replace_note
      split: if_splits)

section \<open>Lemmas on access\<close>

text \<open>Both update handlers refuse every caller but the owner, whatever \<open>sharedWith\<close> holds.\<close>

lemma updateNote_not_owner:
  assumes "Note_findById st i = Some n" and "userId n \<noteq> caller"
  shows "updateNote now st caller i body
           = Inl (HttpError 403 ''Not authorized to update this note'')"
    and "updateNote_basic now st caller i body
           = Inl (HttpError 403 ''Not authorized to update this note'')"
  using assms by (simp_all add: updateNote_def updateNote_basic_def)

text \<open>
  The version reads refuse a caller who is not the owner and has no entry in
  \<open>sharedWith\<close>, and admit every caller who has one.
\<close>

lemma version_reads_refuse_strangers:
  assumes "Note_findById st i = Some n" and "userId n \<noteq> caller"
    and "list_all (\<lambda>s. share_userId s \<noteq> caller) (sharedWith n)"
  shows "getVersionHistory st caller i = Inl (HttpError 403 ''Not authorized'')"
    and "getVersion st caller i vid = Inl (HttpError 403 ''Not authorized'')"
    and "getNoteById st caller i = Inl (HttpError 403 ''Not authorized to access this note'')"
  using assms
  by (auto simp: getVersionHistory_def getVersion_def getNoteById_def hasAccess_def
      list_all_iff list_ex_iff)

lemma version_history_admits_any_grantee:
  assumes "Note_findById st i = Some n" and "s \<in> set (sharedWith n)"
    and "share_userId s = caller"
  shows "\<exists>summaries. getVersionHistory st caller i = Inr summaries"
  using assms by (auto simp: getVersionHistory_def hasAccess_def list_ex_iff)

section \<open>Lemmas on the version archive\<close>

lemma oldest_None_iff: "oldest xs = None \<longleftrightarrow> xs = []"
  by (induction xs) (auto split: option.splits)

lemma oldest_in: "oldest xs = Some e \<Longrightarrow> e \<in> set xs"
  by (induction xs arbitrary: e) (auto split: option.splits if_splits)

lemma oldest_least:
  "oldest xs = Some e \<Longrightarrow> w \<in> set xs \<Longrightarrow> v_createdAt e \<le> v_createdAt w"
proof (induction xs arbitrary: e w)
  case Nil
  then show ?case by simp
next
  case (Cons x xs)
  show ?case
  proof (cases "oldest xs")
    case None
    then have "xs = []" by (simp add: oldest_None_iff)
    with Cons.prems None show ?thesis by simp
  next
    case (Some m)
    have m: "\<And>u. u \<in> set xs \<Longrightarrow> v_createdAt m \<le> v_createdAt u"
      using Cons.IH [OF Some] by simp
    show ?thesis
    proof (cases "v_createdAt x \<le> v_createdAt m")
      case True
      with Some Cons.prems(1) have "e = x" by simp
      with True m Cons.prems(2) show ?thesis by (auto intro: order_trans)
    next
      case False
      with Some Cons.prems(1) have "e = m" by simp
      with False m Cons.prems(2) show ?thesis by auto
    qed
  qed
qed

lemma versions_of_remove1:
  "versions_of nid (remove1 e vs) = remove1 e (versions_of nid vs)"
  by (simp add: versions_of_def filter_remove1)

lemma versions_of_snoc:
  "versions_of nid (vs @ [v]) =
     (if v_noteId v = nid then versions_of nid vs @ [v] else versions_of nid vs)"
  by (simp add: versions_of_def)

lemma versions_of_other_remove1:
  "v_noteId e \<noteq> m \<Longrightarrow> versions_of m (remove1 e vs) = versions_of m vs"
  by (induction vs) (auto simp: versions_of_def)

lemma findOneAndDelete_evicts:
  assumes "versions_of nid vs \<noteq> []"
  shows "\<exists>e. e \<in> set (versions_of nid vs)
           \<and> (\<forall>w \<in> set (versions_of nid vs). v_createdAt e \<le> v_createdAt w)
           \<and> findOneAndDelete nid vs = remove1 e vs"
proof -
  from assms obtain e where e: "oldest (versions_of nid vs) = Some e"
    by (cases "oldest (versions_of nid vs)") (auto simp: oldest_None_iff)
  then show ?thesis
    by (intro exI [of _ e]) (auto simp: findOneAndDelete_def oldest_in oldest_least)
qed

text \<open>
  \<open>NoteVersion.create\<close> on a note that holds at most twenty snapshots succeeds for a
  valid document, touches no note and no user, and leaves the note with one snapshot more,
  or with twenty when it had twenty.
\<close>

lemma NoteVersion_create_count:
  assumes valid: "valid_version v"
    and cap: "countDocuments st (v_noteId v) \<le> 20"
  shows "\<exists>st'. NoteVersion_create st v = Inr (st', v)
           \<and> db_notes st' = db_notes st \<and> db_users st' = db_users st
           \<and> countDocuments st' (v_noteId v) =
               (if countDocuments st (v_noteId v) = 20 then 20
                else countDocuments st (v_noteId v) + 1)"
proof (cases "countDocuments st (v_noteId v) = 20")
  case True
  then have "versions_of (v_noteId v) (db_versions st) \<noteq> []"
    by (auto simp: countDocuments_def)
  from findOneAndDelete_evicts [OF this] obtain e where
    e_in: "e \<in> set (versions_of (v_noteId v) (db_versions st))" and
    del: "findOneAndDelete (v_noteId v) (db_versions st) = remove1 e (db_versions st)"
    by blast
  let ?st' = "st\<lparr>db_versions := remove1 e (db_versions st) @ [v]\<rparr>"
  have "NoteVersion_create st v = Inr (?st', v)"
    using valid True del by (simp add: NoteVersion_create_def pre_save_def Let_def)
  moreover have "countDocuments ?st' (v_noteId v) = 20"
    using True e_in
    by (simp add: countDocuments_def versions_of_snoc versions_of_remove1 length_remove1)
  ultimately show ?thesis
    using True by (intro exI [of _ ?st']) simp
next
  case False
  let ?st' = "st\<lparr>db_versions := db_versions st @ [v]\<rparr>"
  from False cap have "countDocuments st (v_noteId v) < 20" by simp
  then have "NoteVersion_create st v = Inr (?st', v)"
    using valid by (simp add: NoteVersion_create_def pre_save_def Let_def)
  moreover have "countDocuments ?st' (v_noteId v) = countDocuments st (v_noteId v) + 1"
    by (simp add: countDocuments_def versions_of_snoc)
  ultimately show ?thesis
    using False by (intro exI [of _ ?st']) simp
qed

lemma createVersion_at_cap:
  assumes "Note_findById st i = Some n" and "userId n = caller"
    and "title n \<noteq> []" and "content n \<noteq> []" and "countDocuments st i = 20"
  shows "\<exists>st'. createVersion now vid st caller i = Inr (st', snapshot_of now vid st caller n)
           \<and> versionNumber (snapshot_of now vid st caller n) = 21
           \<and> countDocuments st' i = 20
           \<and> Note_findById st' i = Some n"
proof -
  let ?v = "snapshot_of now vid st caller n"
  from assms(1) have i: "note_id n = i" by (simp add: Note_findById_SomeD)
  have nid: "v_noteId ?v = i" using i by (simp add: snapshot_of_def)
  have valid: "valid_version ?v"
    using assms(3,4) by (simp add: valid_version_def snapshot_of_def)
  have cap: "countDocuments st (v_noteId ?v) \<le> 20"
    using assms(5) nid by simp
  from NoteVersion_create_count [OF valid cap] obtain st' where
    c: "NoteVersion_create st ?v = Inr (st', ?v)" and
    n: "db_notes st' = db_notes st" and
    k: "countDocuments st' i = 20"
    using assms(5) nid by auto
  have "createVersion now vid st caller i = Inr (st', ?v)"
    using assms(1,2) c by (simp add: createVersion_def)
  moreover have "versionNumber ?v = 21"
    using assms(5) i by (simp add: snapshot_of_def)
  moreover have "Note_findById st' i = Some n"
    using assms(1) n by (simp add: Note_findById_def)
  ultimately show ?thesis using k by blast
qed

lemma full_count: "countDocuments full_store 10 = 20"
  by (simp add: countDocuments_def versions_of_def full_store_def plan_version_def)

lemma full_find: "Note_findById full_store 10 = Some plan"
  by (simp add: Note_findById_def full_store_def plan_def)

section \<open>Lemmas on sharing\<close>

lemma set_permission_in_place:
  "find (\<lambda>s. share_userId s = u) ss = Some old \<Longrightarrow>
     \<exists>pre post. ss = pre @ old # post
        \<and> list_all (\<lambda>s. share_userId s \<noteq> u) pre
        \<and> set_permission u p ss = pre @ old\<lparr>permission := p\<rparr> # post"
proof (induction ss)
  case Nil
  then show ?case by simp
next
  case (Cons s ss)
  show ?case
  proof (cases "share_userId s = u")
    case True
    with Cons.prems have "s = old" by simp
    with True show ?thesis
      by (intro exI [of _ "[]"] exI [of _ ss]) simp
  next
    case False
    with Cons.prems have "find (\<lambda>s. share_userId s = u) ss = Some old" by simp
    from Cons.IH [OF this] obtain pre post where
      "ss = pre @ old # post" "list_all (\<lambda>s. share_userId s \<noteq> u) pre"
      "set_permission u p ss = pre @ old\<lparr>permission := p\<rparr> # post"
      by blast
    with False show ?thesis
      by (intro exI [of _ "s # pre"] exI [of _ post]) simp
  qed
qed

lemma valid_note_sharedWith [simp]:
  "valid_note (n\<lparr>sharedWith := ss\<rparr>) = valid_note n"
  by (simp add: valid_note_def)

lemma note_save_changed:
  assumes "Note_findById st i = Some old" and "note_id new = i"
    and "valid_note new" and "new \<noteq> old"
  shows "\<exists>st'. note_save now st old new = Inr (st', new\<lparr>updatedAt := now\<rparr>)
           \<and> Note_findById st' i = Some (new\<lparr>updatedAt := now\<rparr>)
           \<and> db_versions st' = db_versions st \<and> db_users st' = db_users st"
proof -
  let ?saved = "new\<lparr>updatedAt := now\<rparr>"
  let ?st' = "st\<lparr>db_notes := replace_note ?saved (db_notes st)\<rparr>"
  have save: "note_save now st old new = Inr (?st', ?saved)"
    using assms(3,4) by (simp add: note_save_def Let_def stamp_def)
  have "find (\<lambda>m. note_id m = i) (replace_note ?saved (db_notes st)) = Some ?saved"
    using assms(1,2) by (intro find_replace_note [of _ _ old]) (simp_all add: Note_findById_def)
  then have "Note_findById ?st' i = Some ?saved"
    by (simp add: Note_findById_def)
  with save show ?thesis by (intro exI [of _ ?st']) simp
qed


section \<open>Lemmas on updates\<close>

lemma dropWhile_all: "list_all P (dropWhile P xs) \<longleftrightarrow> list_all P xs"
  by (induction xs) auto

lemma js_trim_Nil_iff: "js_trim s = [] \<longleftrightarrow> list_all js_space s"
proof -
  have "js_trim s = [] \<longleftrightarrow> list_all js_space (rev (dropWhile js_space s))"
    by (simp add: js_trim_def dropWhile_eq_Nil_conv list_all_iff)
  also have "\<dots> \<longleftrightarrow> list_all js_space (dropWhile js_space s)"
    by (simp add: list_all_iff)
  also have "\<dots> \<longleftrightarrow> list_all js_space s"
    by (rule dropWhile_all)
  finally show ?thesis .
qed

lemma js_or_falsy: "a = None \<or> a = Some [] \<Longrightarrow> js_or a b = b"
  by (auto simp: js_or_def)

lemma updateNote_either_fields:
  assumes found: "Note_findById st i = Some n"
    and res: "updateNote now st caller i body = Inr (st', n')
              \<or> updateNote_basic now st caller i body = Inr (st', n')"
  shows "Note_findById st' i = Some n'
         \<and> title n' = js_trim (js_or (b_title body) (title n))
         \<and> content n' = js_trim (js_or (b_content body) (content n))
         \<and> tags n' = js_default (b_tags body) (tags n)"
  using res
proof
  assume r: "updateNote now st caller i body = Inr (st', n')"
  let ?new = "\<lambda>rs. n\<lparr>title := js_trim (js_or (b_title body) (title n)),
                      content := js_trim (js_or (b_content body) (content n)),
                      tags := js_default (b_tags body) (tags n),
                      isPinned := js_default (b_isPinned body) (isPinned n),
                      isArchived := js_default (b_isArchived body) (isArchived n),
                      reminderAt := js_default (b_reminderAt body) (reminderAt n),
                      reminderStatus := rs\<rparr>"
  from r found obtain rs where s: "note_save now st n (?new rs) = Inr (st', n')"
    by (auto simp: updateNote_def split: if_splits option.splits)
  have "note_id (?new rs) = i" using found by (simp add: Note_findById_SomeD)
  from note_save_stored [OF found this s] show ?thesis
    by (simp add: stamp_fields)
next
  assume r: "updateNote_basic now st caller i body = Inr (st', n')"
  let ?new = "n\<lparr>title := js_trim (js_or (b_title body) (title n)),
                 content := js_trim (js_or (b_content body) (content n)),
                 tags := js_default (b_tags body) (tags n),
                 isPinned := js_default (b_isPinned body) (isPinned n),
                 isArchived := js_default (b_isArchived body) (isArchived n)\<rparr>"
  from r found have s: "note_save now st n ?new = Inr (st', n')"
    by (auto simp: updateNote_basic_def split: if_splits)
  have "note_id ?new = i" using found by (simp add: Note_findById_SomeD)
  from note_save_stored [OF found this s] show ?thesis
    by (simp add: stamp_fields)
qed

text \<open>
  The owner's update succeeds whenever the document it builds satisfies the schema; a
  request names a reminder status of the enumeration or none.
\<close>

lemma updateNote_basic_owner_succeeds:
  assumes "Note_findById st i = Some n" and "userId n = caller"
    and "valid_note (n\<lparr>title := js_trim (js_or (b_title body) (title n)),
                        content := js_trim (js_or (b_content body) (content n)),
                        tags := js_default (b_tags body) (tags n),
                        isPinned := js_default (b_isPinned body) (isPinned n),
                        isArchived := js_default (b_isArchived body) (isArchived n)\<rparr>)"
  shows "\<exists>st' n'. updateNote_basic now st caller i body = Inr (st', n')"
  using assms by (simp add: updateNote_basic_def note_save_ok)

lemma updateNote_owner_succeeds:
  assumes "Note_findById st i = Some n" and "userId n = caller"
    and "b_reminderStatus body = None"
    and "valid_note (n\<lparr>title := js_trim (js_or (b_title body) (title n)),
                        content := js_trim (js_or (b_content body) (content n)),
                        tags := js_default (b_tags body) (tags n),
                        isPinned := js_default (b_isPinned body) (isPinned n),
                        isArchived := js_default (b_isArchived body) (isArchived n),
                        reminderAt := js_default (b_reminderAt body) (reminderAt n),
                        reminderStatus := reminderStatus n\<rparr>)"
  shows "\<exists>st' n'. updateNote now st caller i body = Inr (st', n')"
  using assms by (simp add: updateNote_def note_save_ok)

section \<open>Lemmas on the reminder sweep\<close>















section \<open>Lemmas on restoring a version\<close>

lemma restoreVersion_not_owner:
  assumes "Note_findById st i = Some n" and "userId n \<noteq> caller"
  shows "restoreVersion now vid st caller i target
           = (st, Inl (HttpError 403 ''Only note owner can restore versions''))"
  using assms by (simp add: restoreVersion_def)

lemma restoreVersion_no_version:
  assumes "Note_findById st i = Some n" and "userId n = caller"
    and "NoteVersion_findOne st target i = None"
  shows "restoreVersion now vid st caller i target
           = (st, Inl (HttpError 404 ''Version not found''))"
proof -
  from assms(1) have "note_id n = i" by (simp add: Note_findById_SomeD)
  with assms show ?thesis by (simp add: restoreVersion_def)
qed

lemma restoreVersion_restores:
  assumes found: "Note_findById st i = Some n" and owner: "userId n = caller"
    and ver: "NoteVersion_findOne st target i = Some ver"
    and filled: "content n \<noteq> []" and valid: "valid_note n"
    and cap: "countDocuments st i \<le> 20"
    and valid': "valid_note (n\<lparr>title := js_trim (v_title ver),
                              content := js_trim (v_content ver), tags := v_tags ver\<rparr>)"
  shows "\<exists>st1 st2 saved.
           NoteVersion_create st (snapshot_of now vid st caller n)
             = Inr (st1, snapshot_of now vid st caller n)
           \<and> restoreVersion now vid st caller i target = (st2, Inr saved)
           \<and> Note_findById st2 i = Some saved
           \<and> db_versions st2 = db_versions st1
           \<and> title saved = js_trim (v_title ver)
           \<and> content saved = js_trim (v_content ver)
           \<and> tags saved = v_tags ver
           \<and> isPinned saved = isPinned n \<and> isArchived saved = isArchived n
           \<and> attachments saved = attachments n \<and> sharedWith saved = sharedWith n
           \<and> shareToken saved = shareToken n
           \<and> shareTokenExpiry saved = shareTokenExpiry n
           \<and> reminderAt saved = reminderAt n \<and> reminderStatus saved = reminderStatus n"
proof -
  let ?v = "snapshot_of now vid st caller n"
  let ?new = "n\<lparr>title := js_trim (v_title ver), content := js_trim (v_content ver),
                tags := v_tags ver\<rparr>"
  from found have i: "note_id n = i" by (simp add: Note_findById_SomeD)
  have nid: "v_noteId ?v = i" using i by (simp add: snapshot_of_def)
  have vv: "valid_version ?v"
    using valid filled by (simp add: valid_version_def valid_note_def snapshot_of_def)
  have cap': "countDocuments st (v_noteId ?v) \<le> 20" using cap nid by simp
  from NoteVersion_create_count [OF vv cap'] obtain st1 where
    create: "NoteVersion_create st ?v = Inr (st1, ?v)" and
    same: "db_notes st1 = db_notes st"
    by blast
  have found1: "Note_findById st1 i = Some n"
    using found same by (simp add: Note_findById_def)
  let ?saved = "stamp now n ?new"
  let ?st2 = "st1\<lparr>db_notes := replace_note ?saved (db_notes st1)\<rparr>"
  have save: "note_save now st1 n ?new = Inr (?st2, ?saved)"
    using valid' by (rule note_save_ok)
  have inew: "note_id ?new = i" using i by simp
  from note_save_stored [OF found1 inew save] have
    stored: "Note_findById ?st2 i = Some ?saved" and vs: "db_versions ?st2 = db_versions st1"
    by simp_all
  have run: "restoreVersion now vid st caller i target = (?st2, Inr ?saved)"
    using found owner ver i create save by (simp add: restoreVersion_def)
  show ?thesis
    using create run stored vs
    by (intro exI [of _ st1] exI [of _ ?st2] exI [of _ ?saved]) (simp add: stamp_fields)
qed

section \<open>The claims\<close>

text \<open>
  C1. A user who holds a share grant with permission \<open>edit\<close> and status \<open>accepted\<close>
  should be able to update the note's title, content and tags. Both \<open>updateNote\<close>
  handlers compare the caller with the note's owner only and never read
  \<open>sharedWith\<close>: Bob, holding an accepted \<open>edit\<close> grant on Alice's note, is answered
  403 by each of them.
\<close>

theorem updateNote_edit_grantee_forbidden:
  "Note_findById (shared_store Edit Accepted) 10
     = Some (plan\<lparr>sharedWith :=
               [\<lparr>share_userId = 2, permission = Edit, sharedAt = 3, status = Accepted\<rparr>]\<rparr>)
   \<and> updateNote 100 (shared_store Edit Accepted) 2 10 (no_change\<lparr>b_title := Some [0x50, 0x6C, 0x61, 0x6E, 0x20, 0x42]\<rparr>)
       = Inl (HttpError 403 ''Not authorized to update this note'')
   \<and> updateNote_basic 100 (shared_store Edit Accepted) 2 10
         (no_change\<lparr>b_title := Some [0x50, 0x6C, 0x61, 0x6E, 0x20, 0x42]\<rparr>)
       = Inl (HttpError 403 ''Not authorized to update this note'')"
  by (simp add: updateNote_def updateNote_basic_def Note_findById_def shared_store_def
      plan_store_def plan_def grant_def)

text \<open>
  C2. A caller who is neither the owner nor an accepted grantee should be refused every
  read of the note and of its versions. \<open>getNoteById\<close> refuses Bob, whose grant is
  still \<open>pending\<close>; \<open>getVersionHistory\<close> and \<open>getVersion\<close> test only that
  \<open>sharedWith\<close> has an entry for the caller, whatever its status, and answer him with
  the snapshots of the note.
\<close>

theorem pending_grantee_reads_versions:
  "getNoteById (shared_store View Pending) 2 10
     = Inl (HttpError 403 ''Not authorized to access this note'')
   \<and> getVersionHistory (shared_store View Pending) 2 10
       = Inr [select_summary (plan_version 1)]
   \<and> getVersion (shared_store View Pending) 2 10 101 = Inr (plan_version 1)"
  by (simp add: getNoteById_def getVersionHistory_def getVersion_def Note_findById_def
      NoteVersion_findOne_def hasAccess_def versions_of_def shared_store_def plan_store_def
      plan_def grant_def plan_version_def)

text \<open>
  C3, as amended. When the owner deletes a note, the handler asks the storage provider
  to destroy each attachment of the note, as an image or as a raw file, in their order;
  then the note, and no other note, leaves the notes collection. The version archive is
  left as it was: every snapshot that refers to the deleted note stays in the store.
\<close>

theorem deleteNote_keeps_versions:
  assumes "Note_findById st i = Some n" and "userId n = caller"
  shows "\<exists>st'. deleteNote st caller i = Inr (st', destroy_requests (attachments n))
           \<and> map fst (destroy_requests (attachments n)) = map publicId (attachments n)
           \<and> db_notes st' = filter (\<lambda>m. note_id m \<noteq> i) (db_notes st)
           \<and> Note_findById st' i = None
           \<and> db_versions st' = db_versions st
           \<and> db_users st' = db_users st"
proof -
  let ?st' = "st\<lparr>db_notes := filter (\<lambda>m. note_id m \<noteq> i) (db_notes st)\<rparr>"
  from assms(1) have i: "note_id n = i" by (simp add: Note_findById_SomeD)
  have run: "deleteNote st caller i = Inr (?st', destroy_requests (attachments n))"
    using assms i by (simp add: deleteNote_def)
  have ids: "map fst (destroy_requests (attachments n)) = map publicId (attachments n)"
    by (simp add: destroy_requests_def comp_def)
  have gone: "Note_findById ?st' i = None"
    by (simp add: Note_findById_def find_None_iff)
  from run ids gone show ?thesis
    by (intro exI [of _ ?st']) simp
qed

theorem deleteNote_keeps_versions_witness:
  "Note_findById attached_store 10 = Some attached \<and> userId attached = 1
   \<and> (\<exists>st'. deleteNote attached_store 1 10
               = Inr (st', [(''notes-app/photo'', ''image''), (''notes-app/manual'', ''raw'')])
         \<and> db_notes st' = [memo]
         \<and> Note_findById st' 10 = None
         \<and> db_versions st' = [plan_version 1])"
proof -
  have found: "Note_findById attached_store 10 = Some attached"
    by (simp add: Note_findById_def attached_store_def attached_def plan_def)
  have owner: "userId attached = 1"
    by (simp add: attached_def plan_def)
  have reqs: "destroy_requests (attachments attached)
                = [(''notes-app/photo'', ''image''), (''notes-app/manual'', ''raw'')]"
    by (simp add: destroy_requests_def attached_def photo_def manual_def)
  have rest: "filter (\<lambda>m. note_id m \<noteq> 10) (db_notes attached_store) = [memo]"
    by (simp add: attached_store_def attached_def memo_def plan_def)
  have vs: "db_versions attached_store = [plan_version 1]"
    by (simp add: attached_store_def)
  from deleteNote_keeps_versions [OF found owner] obtain st' where
    "deleteNote attached_store 1 10 = Inr (st', destroy_requests (attachments attached))"
    "db_notes st' = filter (\<lambda>m. note_id m \<noteq> 10) (db_notes attached_store)"
    "Note_findById st' 10 = None"
    "db_versions st' = db_versions attached_store"
    by blast
  then have "\<exists>st'. deleteNote attached_store 1 10
               = Inr (st', [(''notes-app/photo'', ''image''), (''notes-app/manual'', ''raw'')])
         \<and> db_notes st' = [memo]
         \<and> Note_findById st' 10 = None
         \<and> db_versions st' = [plan_version 1]"
    unfolding reqs rest vs by blast
  with found owner show ?thesis by blast
qed

text \<open>
  The claim as stated fails: after Alice deletes her note, whose two attachments the
  handler asks storage to destroy, the snapshot of the note is still in the archive.
\<close>

theorem deleteNote_cascade_counterexample:
  "deleteNote attached_store 1 10
     = Inr (attached_store\<lparr>db_notes := [memo]\<rparr>,
            [(''notes-app/photo'', ''image''), (''notes-app/manual'', ''raw'')])
   \<and> versions_of 10 (db_versions (attached_store\<lparr>db_notes := [memo]\<rparr>)) = [plan_version 1]"
  by (simp add: deleteNote_def Note_findById_def destroy_requests_def versions_of_def
      attached_store_def attached_def memo_def photo_def manual_def plan_def plan_version_def)

text \<open>
  C4. Sequence numbers should increase strictly per note. \<open>createVersion\<close> numbers a
  snapshot with the count of the note's snapshots plus one, and the hook keeps that count
  at twenty: on a note with twenty snapshots, numbered 1 to 20, two calls in a row both
  assign the number 21.
\<close>

theorem versionNumber_repeats_at_cap:
  "case createVersion 50 121 full_store 1 10 of
     Inl err \<Rightarrow> False
   | Inr (st1, first) \<Rightarrow>
       (case createVersion 51 122 st1 1 10 of
          Inl err \<Rightarrow> False
        | Inr (st2, second) \<Rightarrow> versionNumber first = 21 \<and> versionNumber second = 21)"
proof -
  have p: "userId plan = 1" "title plan \<noteq> []" "content plan \<noteq> []"
    by (simp_all add: plan_def)
  from createVersion_at_cap [OF full_find p full_count, of 50 121] obtain st1 where
    a: "createVersion 50 121 full_store 1 10 = Inr (st1, snapshot_of 50 121 full_store 1 plan)"
    and a21: "versionNumber (snapshot_of 50 121 full_store 1 plan) = 21"
    and k1: "countDocuments st1 10 = 20" and f1: "Note_findById st1 10 = Some plan"
    by blast
  from createVersion_at_cap [OF f1 p k1, of 51 122] obtain st2 where
    b: "createVersion 51 122 st1 1 10 = Inr (st2, snapshot_of 51 122 st1 1 plan)"
    and b21: "versionNumber (snapshot_of 51 122 st1 1 plan) = 21"
    by blast
  show ?thesis using a a21 b b21 by simp
qed

text \<open>
  C5. A note keeps at most twenty snapshots. Storing a valid snapshot for a note that
  holds at most twenty succeeds and leaves at most twenty; when twenty are present,
  exactly one of them, with the least creation time among the note's snapshots, is
  removed in the same operation, so that nineteen of the twenty remain with the new one.
  The snapshots of every other note, and the notes, are untouched.
\<close>

theorem version_cap:
  assumes valid: "valid_version v"
    and cap: "countDocuments st (v_noteId v) \<le> 20"
  shows "\<exists>st'. NoteVersion_create st v = Inr (st', v)
           \<and> db_notes st' = db_notes st
           \<and> countDocuments st' (v_noteId v) \<le> 20
           \<and> (\<forall>m. m \<noteq> v_noteId v \<longrightarrow>
                 versions_of m (db_versions st') = versions_of m (db_versions st))
           \<and> (if countDocuments st (v_noteId v) = 20
              then \<exists>e. e \<in> set (versions_of (v_noteId v) (db_versions st))
                     \<and> (\<forall>w \<in> set (versions_of (v_noteId v) (db_versions st)).
                           v_createdAt e \<le> v_createdAt w)
                     \<and> db_versions st' = remove1 e (db_versions st) @ [v]
                     \<and> versions_of (v_noteId v) (db_versions st') =
                         remove1 e (versions_of (v_noteId v) (db_versions st)) @ [v]
                     \<and> countDocuments st' (v_noteId v) = 20
              else db_versions st' = db_versions st @ [v])"
proof (cases "countDocuments st (v_noteId v) = 20")
  case True
  let ?nid = "v_noteId v"
  let ?vs = "db_versions st"
  from True have ne: "versions_of ?nid ?vs \<noteq> []"
    by (auto simp: countDocuments_def)
  from findOneAndDelete_evicts [OF ne] obtain e where
    e_in: "e \<in> set (versions_of ?nid ?vs)" and
    e_min: "\<forall>w \<in> set (versions_of ?nid ?vs). v_createdAt e \<le> v_createdAt w" and
    del: "findOneAndDelete ?nid ?vs = remove1 e ?vs"
    by blast
  let ?st' = "st\<lparr>db_versions := remove1 e ?vs @ [v]\<rparr>"
  have create: "NoteVersion_create st v = Inr (?st', v)"
    using valid True del by (simp add: NoteVersion_create_def pre_save_def Let_def)
  have mine: "versions_of ?nid (db_versions ?st') = remove1 e (versions_of ?nid ?vs) @ [v]"
    by (simp add: versions_of_snoc versions_of_remove1)
  have len: "countDocuments ?st' ?nid = 20"
    using True e_in unfolding countDocuments_def mine by (simp add: length_remove1)
  have e_note: "v_noteId e = ?nid"
    using e_in by (simp add: versions_of_def)
  have others: "\<forall>m. m \<noteq> ?nid \<longrightarrow> versions_of m (db_versions ?st') = versions_of m ?vs"
    using e_note by (simp add: versions_of_snoc versions_of_other_remove1)
  show ?thesis
    using True create mine len others e_in e_min
    by (intro exI [of _ ?st']) auto
next
  case False
  let ?st' = "st\<lparr>db_versions := db_versions st @ [v]\<rparr>"
  from False cap have lt: "countDocuments st (v_noteId v) < 20" by simp
  then have create: "NoteVersion_create st v = Inr (?st', v)"
    using valid by (simp add: NoteVersion_create_def pre_save_def Let_def)
  have "countDocuments ?st' (v_noteId v) \<le> 20"
    using lt by (simp add: countDocuments_def versions_of_snoc)
  moreover have "\<forall>m. m \<noteq> v_noteId v \<longrightarrow>
      versions_of m (db_versions ?st') = versions_of m (db_versions st)"
    by (simp add: versions_of_snoc)
  ultimately show ?thesis
    using False create by (intro exI [of _ ?st']) simp
qed

theorem version_cap_witness:
  "valid_version (snapshot_of 50 121 full_store 1 plan)
   \<and> countDocuments full_store (v_noteId (snapshot_of 50 121 full_store 1 plan)) \<le> 20
   \<and> (\<exists>st' e. NoteVersion_create full_store (snapshot_of 50 121 full_store 1 plan)
               = Inr (st', snapshot_of 50 121 full_store 1 plan)
         \<and> e \<in> set (versions_of 10 (db_versions full_store))
         \<and> db_versions st' =
             remove1 e (db_versions full_store) @ [snapshot_of 50 121 full_store 1 plan]
         \<and> countDocuments st' 10 = 20)"
proof -
  let ?v = "snapshot_of 50 121 full_store 1 plan"
  have nid: "v_noteId ?v = 10" by (simp add: snapshot_of_def plan_def)
  have valid: "valid_version ?v"
    by (simp add: valid_version_def snapshot_of_def plan_def)
  have cap: "countDocuments full_store (v_noteId ?v) \<le> 20"
    unfolding nid using full_count by simp
  from version_cap [OF valid cap] obtain st' where
    "NoteVersion_create full_store ?v = Inr (st', ?v)"
    "\<exists>e. e \<in> set (versions_of 10 (db_versions full_store))
        \<and> db_versions st' = remove1 e (db_versions full_store) @ [?v]
        \<and> countDocuments st' 10 = 20"
    unfolding nid using full_count by auto
  with valid cap show ?thesis by blast
qed

text \<open>
  C6. A grant by the note's owner that names a user found by the address, other than the
  owner. If the user already holds a grant: with a different permission, the entry in
  \<open>sharedWith\<close> is updated where it stands, its status and date are kept and
  the other entries are untouched; with the same permission the call fails with status
  400, "Note already shared with this user", and nothing is written. If the user holds no
  grant, an entry with status \<open>pending\<close> is appended. The stored note satisfies its
  schema, as every note written through the model does.
\<close>

theorem shareNote_grant:
  assumes found: "Note_findById st i = Some n" and owner: "userId n = caller"
    and valid: "valid_note n"
    and mail: "sb_email body = Some e" "e \<noteq> []"
    and perm: "parse_permission (js_default (sb_permission body) ''view'') = Some p"
    and grantee: "find (\<lambda>u. matches e (email u)) (db_users st) = Some g"
      "user_id g \<noteq> caller"
  shows "case find (\<lambda>s. share_userId s = user_id g) (sharedWith n) of
           Some old \<Rightarrow>
             if permission old = p
             then shareNote matches now st caller i body
                    = Inl (HttpError 400 ''Note already shared with this user'')
             else \<exists>st' pre post.
                    sharedWith n = pre @ old # post
                    \<and> list_all (\<lambda>s. share_userId s \<noteq> user_id g) pre
                    \<and> shareNote matches now st caller i body
                        = Inr (st', ''Permission updated'',
                               pre @ old\<lparr>permission := p\<rparr> # post)
                    \<and> Note_findById st' i
                        = Some (n\<lparr>sharedWith := pre @ old\<lparr>permission := p\<rparr> # post,
                                  updatedAt := now\<rparr>)
                    \<and> status (old\<lparr>permission := p\<rparr>) = status old
         | None \<Rightarrow>
             \<exists>st'. shareNote matches now st caller i body
                      = Inr (st', ''Note shared successfully'',
                             sharedWith n @ [\<lparr>share_userId = user_id g, permission = p,
                                              sharedAt = now, status = Pending\<rparr>])
                  \<and> Note_findById st' i
                      = Some (n\<lparr>sharedWith := sharedWith n @
                                  [\<lparr>share_userId = user_id g, permission = p,
                                    sharedAt = now, status = Pending\<rparr>],
                                updatedAt := now\<rparr>)"
proof (cases "find (\<lambda>s. share_userId s = user_id g) (sharedWith n)")
  case None
  let ?new = "n\<lparr>sharedWith := sharedWith n @
                [\<lparr>share_userId = user_id g, permission = p, sharedAt = now, status = Pending\<rparr>]\<rparr>"
  have ne: "?new \<noteq> n"
  proof
    assume "?new = n"
    then have "sharedWith ?new = sharedWith n" by simp
    then show False by simp
  qed
  have i: "note_id ?new = i" using found by (simp add: Note_findById_SomeD)
  have v: "valid_note ?new" using valid by simp
  from note_save_changed [OF found i v ne, of now] obtain st' where
    save: "note_save now st n ?new = Inr (st', ?new\<lparr>updatedAt := now\<rparr>)" and
    stored: "Note_findById st' i = Some (?new\<lparr>updatedAt := now\<rparr>)"
    by blast
  have "shareNote matches now st caller i body =
      Inr (st', ''Note shared successfully'', sharedWith ?new)"
    using found owner mail perm grantee None save
    by (simp add: shareNote_def)
  with stored None show ?thesis by auto
next
  case (Some old)
  show ?thesis
  proof (cases "permission old = p")
    case True
    then have "shareNote matches now st caller i body
                 = Inl (HttpError 400 ''Note already shared with this user'')"
      using found owner mail perm grantee Some by (simp add: shareNote_def)
    with Some True show ?thesis by simp
  next
    case False
    from set_permission_in_place [OF Some, of p] obtain pre post where
      split: "sharedWith n = pre @ old # post"
      and pre: "list_all (\<lambda>s. share_userId s \<noteq> user_id g) pre"
      and upd: "set_permission (user_id g) p (sharedWith n) = pre @ old\<lparr>permission := p\<rparr> # post"
      by blast
    let ?ss = "pre @ old\<lparr>permission := p\<rparr> # post"
    let ?new = "n\<lparr>sharedWith := ?ss\<rparr>"
    have "old\<lparr>permission := p\<rparr> \<noteq> old"
    proof
      assume "old\<lparr>permission := p\<rparr> = old"
      then have "permission (old\<lparr>permission := p\<rparr>) = permission old" by simp
      with False show False by simp
    qed
    then have "?ss \<noteq> sharedWith n" using split by simp
    then have ne: "?new \<noteq> n"
      by (metis (no_types) noteDoc.select_convs(11) noteDoc.surjective noteDoc.update_convs(11))
    have i: "note_id ?new = i" using found by (simp add: Note_findById_SomeD)
    have v: "valid_note ?new" using valid by simp
    from note_save_changed [OF found i v ne, of now] obtain st' where
      save: "note_save now st n ?new = Inr (st', ?new\<lparr>updatedAt := now\<rparr>)" and
      stored: "Note_findById st' i = Some (?new\<lparr>updatedAt := now\<rparr>)"
      by blast
    have res: "shareNote matches now st caller i body = Inr (st', ''Permission updated'', ?ss)"
      using found owner mail perm grantee Some False save upd
      by (simp add: shareNote_def)
    have "\<exists>st' pre post.
            sharedWith n = pre @ old # post
            \<and> list_all (\<lambda>s. share_userId s \<noteq> user_id g) pre
            \<and> shareNote matches now st caller i body
                = Inr (st', ''Permission updated'', pre @ old\<lparr>permission := p\<rparr> # post)
            \<and> Note_findById st' i
                = Some (n\<lparr>sharedWith := pre @ old\<lparr>permission := p\<rparr> # post,
                          updatedAt := now\<rparr>)
            \<and> status (old\<lparr>permission := p\<rparr>) = status old"
      using res stored split pre
      by (intro exI [of _ st'] exI [of _ pre] exI [of _ post]) simp
    with Some False show ?thesis by simp
  qed
qed

theorem shareNote_grant_witness:
  "Note_findById (shared_store View Accepted) 10 = Some (plan\<lparr>sharedWith := [grant View Accepted]\<rparr>)
   \<and> userId (plan\<lparr>sharedWith := [grant View Accepted]\<rparr>) = 1
   \<and> valid_note (plan\<lparr>sharedWith := [grant View Accepted]\<rparr>)
   \<and> sb_email (invite ''edit'') = Some ''bob@example.com''
   \<and> parse_permission (js_default (sb_permission (invite ''edit'')) ''view'') = Some Edit
   \<and> find (\<lambda>u. same_address ''bob@example.com'' (email u))
            (db_users (shared_store View Accepted)) = Some bob
   \<and> user_id bob \<noteq> 1
   \<and> (\<exists>st'. shareNote same_address 100 (shared_store View Accepted) 1 10 (invite ''edit'')
                = Inr (st', ''Permission updated'', [grant Edit Accepted])
             \<and> Note_findById st' 10
                = Some (plan\<lparr>sharedWith := [grant Edit Accepted], updatedAt := 100\<rparr>))"
proof -
  let ?n = "plan\<lparr>sharedWith := [grant View Accepted]\<rparr>"
  have found: "Note_findById (shared_store View Accepted) 10 = Some ?n"
    by (simp add: Note_findById_def shared_store_def plan_store_def plan_def)
  have owner: "userId ?n = 1" by (simp add: plan_def)
  have valid: "valid_note ?n" by (simp add: valid_note_def plan_def)
  have mail: "sb_email (invite ''edit'') = Some ''bob@example.com''"
             "''bob@example.com'' \<noteq> []"
    by (simp_all add: invite_def)
  have perm: "parse_permission (js_default (sb_permission (invite ''edit'')) ''view'') = Some Edit"
    by (simp add: invite_def js_default_def parse_permission_def)
  have grantee: "find (\<lambda>u. same_address ''bob@example.com'' (email u))
                      (db_users (shared_store View Accepted)) = Some bob"
    by (simp add: same_address_def shared_store_def plan_store_def alice_def bob_def)
  have other: "user_id bob \<noteq> 1" by (simp add: bob_def)
  have held: "find (\<lambda>s. share_userId s = user_id bob) (sharedWith ?n) = Some (grant View Accepted)"
    by (simp add: bob_def grant_def)
  have edit: "(grant View Accepted)\<lparr>permission := Edit\<rparr> = grant Edit Accepted"
    by (simp add: grant_def)
  from shareNote_grant [where matches = same_address and now = 100,
      OF found owner valid mail perm grantee other]
  obtain st' pre post where
    split: "sharedWith ?n = pre @ grant View Accepted # post" and
    res: "shareNote same_address 100 (shared_store View Accepted) 1 10 (invite ''edit'')
            = Inr (st', ''Permission updated'',
                   pre @ (grant View Accepted)\<lparr>permission := Edit\<rparr> # post)" and
    stored: "Note_findById st' 10
            = Some (?n\<lparr>sharedWith := pre @ (grant View Accepted)\<lparr>permission := Edit\<rparr> # post,
                      updatedAt := 100\<rparr>)"
    unfolding held by (auto simp: grant_def)
  from split have "pre = [] \<and> post = []"
    by (simp add: Cons_eq_append_conv)
  with res stored edit have
    "shareNote same_address 100 (shared_store View Accepted) 1 10 (invite ''edit'')
       = Inr (st', ''Permission updated'', [grant Edit Accepted])
     \<and> Note_findById st' 10
       = Some (plan\<lparr>sharedWith := [grant Edit Accepted], updatedAt := 100\<rparr>)"
    by simp
  then have "\<exists>st'. shareNote same_address 100 (shared_store View Accepted) 1 10 (invite ''edit'')
                = Inr (st', ''Permission updated'', [grant Edit Accepted])
             \<and> Note_findById st' 10
                = Some (plan\<lparr>sharedWith := [grant Edit Accepted], updatedAt := 100\<rparr>)"
    by blast
  with found owner valid mail(1) perm grantee other show ?thesis by blast
qed



text \<open>
  C8. Restoring a version should first store a snapshot of the note as it is and then
  copy the version's title, content and tags into the note. The snapshot is a
  \<open>NoteVersion\<close> document, whose schema requires a non-empty \<open>content\<close>, while a
  note may have none: after Alice blanks the content of her note with a white-space
  update, restoring her snapshot fails in validation and leaves the note blank.
\<close>

theorem restoreVersion_fails_on_empty_content:
  "updateNote 100 plan_store 1 10 (no_change\<lparr>b_content := Some [0x20]\<rparr>)
     = Inr (emptied_store, plan\<lparr>content := [], updatedAt := 100\<rparr>)
   \<and> NoteVersion_findOne emptied_store 101 10 = Some (plan_version 1)
   \<and> restoreVersion 200 102 emptied_store 1 10 101 = (emptied_store, Inl ValidationError)"
  by (simp add: updateNote_def restoreVersion_def Note_findById_def NoteVersion_findOne_def
      NoteVersion_create_def valid_version_def snapshot_of_def note_save_def valid_note_def
      stamp_def replace_note_def js_trim_def js_space_def js_or_def js_default_def Let_def
      emptied_store_def plan_store_def plan_def plan_version_def no_change_def)




text \<open>
  C10, as amended. In both \<open>updateNote\<close> handlers, when the call succeeds, the note
  it answers with is the stored one. A title or content that is absent from the request
  or is the empty string leaves the stored field as it was; any other title or content
  is stored trimmed. So a content that is not empty becomes empty exactly through a
  request whose content is not empty and consists of white space only. The stored title
  and content are trimmed, as every value assigned through the schema is.
\<close>

theorem updateNote_falsy_fields:
  assumes found: "Note_findById st i = Some n"
    and trimmed: "js_trim (title n) = title n" "js_trim (content n) = content n"
    and res: "updateNote now st caller i body = Inr (st', n')
              \<or> updateNote_basic now st caller i body = Inr (st', n')"
  shows "Note_findById st' i = Some n'
       \<and> (b_title body = None \<or> b_title body = Some [] \<longrightarrow> title n' = title n)
       \<and> (b_content body = None \<or> b_content body = Some [] \<longrightarrow> content n' = content n)
       \<and> (\<forall>s. b_title body = Some s \<and> s \<noteq> [] \<longrightarrow> title n' = js_trim s)
       \<and> (\<forall>s. b_content body = Some s \<and> s \<noteq> [] \<longrightarrow> content n' = js_trim s)
       \<and> (content n \<noteq> [] \<longrightarrow>
            (content n' = [] \<longleftrightarrow>
               (\<exists>s. b_content body = Some s \<and> s \<noteq> [] \<and> list_all js_space s)))"
proof -
  from updateNote_either_fields [OF found res] have
    st: "Note_findById st' i = Some n'" and
    t: "title n' = js_trim (js_or (b_title body) (title n))" and
    c: "content n' = js_trim (js_or (b_content body) (content n))"
    by simp_all
  have 1: "b_title body = None \<or> b_title body = Some [] \<longrightarrow> title n' = title n"
    using t trimmed(1) by (auto simp: js_or_falsy)
  have 2: "b_content body = None \<or> b_content body = Some [] \<longrightarrow> content n' = content n"
    using c trimmed(2) by (auto simp: js_or_falsy)
  have 3: "\<forall>s. b_title body = Some s \<and> s \<noteq> [] \<longrightarrow> title n' = js_trim s"
    using t by (simp add: js_or_def)
  have 4: "\<forall>s. b_content body = Some s \<and> s \<noteq> [] \<longrightarrow> content n' = js_trim s"
    using c by (simp add: js_or_def)
  have 5: "content n \<noteq> [] \<longrightarrow>
            (content n' = [] \<longleftrightarrow>
               (\<exists>s. b_content body = Some s \<and> s \<noteq> [] \<and> list_all js_space s))"
  proof
    assume filled: "content n \<noteq> []"
    show "content n' = [] \<longleftrightarrow>
            (\<exists>s. b_content body = Some s \<and> s \<noteq> [] \<and> list_all js_space s)"
    proof
      assume empty: "content n' = []"
      show "\<exists>s. b_content body = Some s \<and> s \<noteq> [] \<and> list_all js_space s"
      proof (cases "b_content body")
        case None
        with 2 filled empty show ?thesis by simp
      next
        case (Some s)
        show ?thesis
        proof (cases "s = []")
          case True
          with Some 2 filled empty show ?thesis by simp
        next
          case False
          with Some 4 empty have "js_trim s = []" by simp
          then have "list_all js_space s" by (simp add: js_trim_Nil_iff)
          with Some False show ?thesis by simp
        qed
      qed
    next
      assume "\<exists>s. b_content body = Some s \<and> s \<noteq> [] \<and> list_all js_space s"
      then obtain s where s: "b_content body = Some s" "s \<noteq> []" "list_all js_space s"
        by blast
      from s(3) have "js_trim s = []" by (simp add: js_trim_Nil_iff)
      with s(1,2) 4 show "content n' = []" by simp
    qed
  qed
  from st 1 2 3 4 5 show ?thesis by blast
qed

theorem updateNote_falsy_fields_witness:
  "Note_findById plan_store 10 = Some plan
   \<and> js_trim (title plan) = title plan \<and> js_trim (content plan) = content plan
   \<and> updateNote 100 plan_store 1 10
         (no_change\<lparr>b_title := Some [], b_content := Some [0x20, 0x78, 0xA0]\<rparr>)
       = Inr (plan_store\<lparr>db_notes := [plan\<lparr>content := [0x78], updatedAt := 100\<rparr>]\<rparr>,
              plan\<lparr>content := [0x78], updatedAt := 100\<rparr>)
   \<and> title (plan\<lparr>content := [0x78], updatedAt := 100\<rparr>) = title plan
   \<and> content (plan\<lparr>content := [0x78], updatedAt := 100\<rparr>) = js_trim [0x20, 0x78, 0xA0]"
proof -
  let ?body = "no_change\<lparr>b_title := Some [], b_content := Some [0x20, 0x78, 0xA0]\<rparr>"
  let ?n' = "plan\<lparr>content := [0x78], updatedAt := 100\<rparr>"
  let ?st' = "plan_store\<lparr>db_notes := [?n']\<rparr>"
  have found: "Note_findById plan_store 10 = Some plan"
    by (simp add: Note_findById_def plan_store_def plan_def)
  have trimmed: "js_trim (title plan) = title plan" "js_trim (content plan) = content plan"
    by (simp_all add: js_trim_def js_space_def plan_def)
  have run: "updateNote 100 plan_store 1 10 ?body = Inr (?st', ?n')"
    by (simp add: updateNote_def Note_findById_def note_save_def valid_note_def stamp_def
        replace_note_def js_trim_def js_space_def js_or_def js_default_def Let_def
        plan_store_def plan_def no_change_def)
  then have res: "updateNote 100 plan_store 1 10 ?body = Inr (?st', ?n')
                \<or> updateNote_basic 100 plan_store 1 10 ?body = Inr (?st', ?n')"
    by (rule disjI1)
  have sent: "b_title ?body = None \<or> b_title ?body = Some []"
             "b_content ?body = Some [0x20, 0x78, 0xA0] \<and> [0x20, 0x78, 0xA0] \<noteq> ([] :: jstring)"
    by (simp_all add: no_change_def)
  from updateNote_falsy_fields [OF found trimmed res] sent
  have "title ?n' = title plan" "content ?n' = js_trim [0x20, 0x78, 0xA0]"
    by blast+
  with found trimmed run show ?thesis by blast
qed

text \<open>
  The claim as stated fails: Alice's note has the content \<open>abc\<close>, and an update whose
  content is one space stores the empty string, in both handlers; so does an update whose
  content is one no-break space.
\<close>

theorem updateNote_blank_content_counterexample:
  "content plan = [0x61, 0x62, 0x63]
   \<and> updateNote 100 plan_store 1 10 (no_change\<lparr>b_content := Some [0x20]\<rparr>)
       = Inr (plan_store\<lparr>db_notes := [plan\<lparr>content := [], updatedAt := 100\<rparr>]\<rparr>,
              plan\<lparr>content := [], updatedAt := 100\<rparr>)
   \<and> updateNote_basic 100 plan_store 1 10 (no_change\<lparr>b_content := Some [0x20]\<rparr>)
       = Inr (plan_store\<lparr>db_notes := [plan\<lparr>content := [], updatedAt := 100\<rparr>]\<rparr>,
              plan\<lparr>content := [], updatedAt := 100\<rparr>)
   \<and> updateNote 100 plan_store 1 10 (no_change\<lparr>b_content := Some [0xA0]\<rparr>)
       = Inr (plan_store\<lparr>db_notes := [plan\<lparr>content := [], updatedAt := 100\<rparr>]\<rparr>,
              plan\<lparr>content := [], updatedAt := 100\<rparr>)"
  by (simp add: updateNote_def updateNote_basic_def Note_findById_def note_save_def
      valid_note_def stamp_def replace_note_def js_trim_def js_space_def js_or_def
      js_default_def Let_def plan_store_def plan_def no_change_def)

end
